theory Spec2Isabelle
  imports Main "HOL-Library.AList"
begin

section \<open>Token bucket (package driver)\<close>

text \<open>
  Go's \<open>int64\<close> is modelled as \<open>int\<close> with the two's-complement wrap-around written
  out: every arithmetic result of the source is passed through \<open>wrap64\<close>. Integer
  division \<open>/\<close> truncates toward zero (\<open>go_div\<close>). A \<open>time.Time\<close> is the number of
  nanoseconds on the process clock; a \<open>time.Duration\<close> is an \<open>int64\<close> of nanoseconds and
  \<open>Time.Sub\<close> saturates at the ends of that range (\<open>sat64\<close>).
\<close>

definition wrap64 :: "int \<Rightarrow> int" where
  "wrap64 x = (x + 9223372036854775808) mod 18446744073709551616 - 9223372036854775808"

definition sat64 :: "int \<Rightarrow> int" where
  "sat64 x = (if x < - 9223372036854775808 then - 9223372036854775808
              else if 9223372036854775807 < x then 9223372036854775807 else x)"

definition go_div :: "int \<Rightarrow> int \<Rightarrow> int" where
  "go_div a b = sgn a * sgn b * (\<bar>a\<bar> div \<bar>b\<bar>)"

record TokenBucket =
  speed :: int
  capacity :: int
  maxCapacity :: int
  timeout :: int
  lastConsume :: int

text \<open>
  \<open>NewTokenBucket\<close>: the argument is the outcome of \<open>fmt.Sscanf(config, "%dx%d/%d", ...)\<close>,
  \<open>None\<close> when the scan fails (the source panics), otherwise \<open>(speed, wait, max)\<close>;
  \<open>now\<close> is the reading of \<open>time.Now()\<close>. The field \<open>capacity\<close> is not set by the
  source and so holds Go's zero value.
\<close>

definition NewTokenBucket :: "(int \<times> int \<times> int) option \<Rightarrow> int \<Rightarrow> TokenBucket option" where
  "NewTokenBucket scanned now =
     (case scanned of
        None \<Rightarrow> None
      | Some (sp, wait, mx) \<Rightarrow>
          Some \<lparr>speed = sp, capacity = 0, maxCapacity = mx,
                timeout = wrap64 (wait * 1000000000), lastConsume = now\<rparr>)"

text \<open>
  The refill step of \<open>Consume\<close> (the statements between taking the lock and the test
  \<open>n <= tb.capacity\<close>): \<open>ms := now.Sub(tb.lastConsume).Nanoseconds() / 1e6\<close>,
  \<open>tb.capacity += ms * tb.speed / 1000\<close>, then the cap at \<open>maxCapacity\<close>.
\<close>

definition elapsed_ms :: "TokenBucket \<Rightarrow> int \<Rightarrow> int" where
  "elapsed_ms tb now = go_div (sat64 (now - lastConsume tb)) 1000000"

definition refill :: "TokenBucket \<Rightarrow> int \<Rightarrow> TokenBucket" where
  "refill tb now =
     (let c = wrap64 (capacity tb + go_div (wrap64 (elapsed_ms tb now * speed tb)) 1000)
      in tb\<lparr>capacity := (if maxCapacity tb < c then maxCapacity tb else c)\<rparr>)"

text \<open>
  The branch of \<open>Consume\<close> that produced the result: the early return for an unlimited
  bucket, the immediate deduction, the wait (with the duration handed to
  \<open>time.Sleep\<close>), or the rejection.
\<close>

datatype branch = Unlimited | Instant | Waited int | Rejected

text \<open>
  \<open>Consume\<close>. The source computes the wait in \<open>float64\<close>:
  \<open>sec := float64(n-tb.capacity) / float64(tb.speed)\<close> and
  \<open>sleepTime := time.Duration(sec*1000) * time.Millisecond\<close>. The floating-point part,
  the map from the deficit and the speed to the integer \<open>time.Duration(sec*1000)\<close>, is the
  parameter \<open>f\<close>; the surrounding integer arithmetic is modelled as written. The result is
  the returned boolean, the branch taken, and the bucket after the call. Calls are
  serialised by the mutex, so a run of the bucket is a sequence of calls, each with its own
  clock reading.
\<close>

definition sleepTime :: "(int \<Rightarrow> int \<Rightarrow> int) \<Rightarrow> TokenBucket \<Rightarrow> int \<Rightarrow> int" where
  "sleepTime f tb n = wrap64 (f (wrap64 (n - capacity tb)) (speed tb) * 1000000)"

definition Consume :: "(int \<Rightarrow> int \<Rightarrow> int) \<Rightarrow> TokenBucket \<Rightarrow> int \<Rightarrow> int
    \<Rightarrow> bool \<times> branch \<times> TokenBucket" where
  "Consume f tb now n =
     (if speed tb = 0 then (True, Unlimited, tb)
      else let tb1 = refill tb now in
        if n \<le> capacity tb1
        then (True, Instant, tb1\<lparr>lastConsume := now, capacity := wrap64 (capacity tb1 - n)\<rparr>)
        else let st = sleepTime f tb1 n in
          if timeout tb1 < st then (False, Rejected, tb1)
          else (True, Waited st, tb1\<lparr>capacity := 0, lastConsume := now + st\<rparr>))"

text \<open>
  The exact value of \<open>time.Duration(float64(d)/float64(s)*1000)\<close>: the quotient times
  1000, truncated toward zero. \<open>float64\<close> agrees with it wherever the quotient and the
  product are exactly representable (small integers whose quotient is an integer or a
  short binary fraction); it is used to evaluate \<open>Consume\<close> at such inputs.
\<close>

definition waitMillis :: "int \<Rightarrow> int \<Rightarrow> int" where
  "waitMillis d s = go_div (d * 1000) s"


section \<open>Strings (strconv and strings)\<close>

definition HasPrefix :: "string \<Rightarrow> string \<Rightarrow> bool" where
  "HasPrefix s p = (take (length p) s = p)"

definition FormatBool :: "bool \<Rightarrow> string" where
  "FormatBool b = (if b then ''true'' else ''false'')"

definition digit :: "nat \<Rightarrow> char" where
  "digit d = ''0123456789'' ! d"

fun natstr :: "nat \<Rightarrow> string" where
  "natstr n = (if n < 10 then [digit n] else natstr (n div 10) @ [digit (n mod 10)])"

declare natstr.simps [simp del]

text \<open>\<open>strconv.FormatInt(i, 10)\<close>.\<close>

definition FormatInt :: "int \<Rightarrow> string" where
  "FormatInt i = (if i < 0 then CHR ''-'' # natstr (nat (- i)) else natstr (nat i))"

text \<open>\<open>strings.Split(s, sep)\<close> for a separator of one byte.\<close>

fun Split :: "string \<Rightarrow> char \<Rightarrow> string list" where
  "Split [] c = [[]]"
| "Split (x # xs) c =
     (if x = c then [] # Split xs c
      else (case Split xs c of [] \<Rightarrow> [[x]] | p # ps \<Rightarrow> (x # p) # ps))"

text \<open>
  A time is a number of nanoseconds since the epoch: \<open>t.Unix()\<close> is the whole seconds,
  \<open>time.Unix(s, 0)\<close> the time of that second.
\<close>

definition Unix :: "int \<Rightarrow> int" where
  "Unix t = t div 1000000000"

definition time_Unix :: "int \<Rightarrow> int" where
  "time_Unix s = s * 1000000000"

section \<open>Articles, users and the store (package dal)\<close>

type_synonym Cmd = string

definition CmdFollow :: Cmd where "CmdFollow = ''follow''"
definition CmdFollowed :: Cmd where "CmdFollowed = ''followed''"
definition CmdBlock :: Cmd where "CmdBlock = ''block''"
definition CmdLike :: Cmd where "CmdLike = ''like''"

text \<open>
  The fields of \<open>Article\<close> that the chain functions read or write. \<open>Extras\<close>, a Go
  \<open>map[string]string\<close>, is an association list: \<open>map_of\<close> is the lookup,
  \<open>AList.update\<close> the assignment \<open>m[k] = v\<close>, and the order of the list stands for the
  order in which one \<open>range\<close> loop happens to visit the map.
\<close>

record Article =
  ID :: string
  NextID :: string
  Cmd :: Cmd
  Extras :: "(string \<times> string) list"
  CreateTime :: int
  Media :: string

text \<open>\<open>a.Extras[k]\<close>: Go yields the empty string for a missing key.\<close>

definition extra :: "Article \<Rightarrow> string \<Rightarrow> string" where
  "extra a k = (case map_of (Extras a) k of None \<Rightarrow> [] | Some v \<Rightarrow> v)"

record User =
  UserID :: string
  Followers :: int
  Followings :: int
  Unread :: int

datatype error = ErrNotExisted | ErrAlreadyExists | ErrFollowToBlocked

text \<open>
  A goroutine started with \<open>go func() {...}()\<close> is recorded as a dispatched task with
  the variables it captures; it runs later, detached from the call that started it.
\<close>

datatype Task = FollowEffects string string bool | LikeEffects string string bool

record DB =
  articles :: "string \<rightharpoonup> Article"
  users :: "string \<rightharpoonup> User"
  dispatched :: "Task list"

text \<open>
  The key constructors \<open>makeFollowID\<close>, \<open>makeFollowedID\<close>, \<open>makeBlockID\<close>,
  \<open>makeLikeID\<close> and \<open>ik.NewID(kind, id).String()\<close>, and the parsers \<open>atoi64\<close> and
  \<open>atob\<close>, are not among the sources. Every function that calls them takes them in an
  environment, and the theorems hold for every environment.
\<close>

datatype IDKind = IDFollowing | IDFollower | IDBlacklist | IDLike

record Env =
  makeFollowID :: "string \<Rightarrow> string \<Rightarrow> string"
  makeFollowedID :: "string \<Rightarrow> string \<Rightarrow> string"
  makeBlockID :: "string \<Rightarrow> string \<Rightarrow> string"
  makeLikeID :: "string \<Rightarrow> string \<Rightarrow> string"
  NewID :: "IDKind \<Rightarrow> string \<Rightarrow> string"
  atoi64 :: "string \<Rightarrow> int"
  atob :: "string \<Rightarrow> bool"

text \<open>
  Modelled from the spec: \<open>GetArticle\<close> is not among the sources. It loads the node
  stored under a key; a missing key is the "not found" outcome \<open>ErrNotExisted\<close>.
\<close>

definition GetArticle :: "DB \<Rightarrow> string \<Rightarrow> error + Article" where
  "GetArticle db k = (case articles db k of None \<Rightarrow> Inl ErrNotExisted | Some a \<Rightarrow> Inr a)"

text \<open>
  Modelled from the spec: the executor \<open>Do\<close> and \<open>NewRequest\<close> are not among the
  sources. Update-node with a single extras upsert (spec 4.3): load the node, fail with
  "not existed" if absent, apply the mutation, persist, and return the previous value of
  the mutated key (\<open>Response.OldExtraValue\<close>).
\<close>

definition DoUpdateArticle :: "DB \<Rightarrow> string \<Rightarrow> string \<Rightarrow> string \<Rightarrow> (error + string) \<times> DB" where
  "DoUpdateArticle db k key val =
     (case articles db k of
        None \<Rightarrow> (Inl ErrNotExisted, db)
      | Some a \<Rightarrow>
          (Inr (extra a key),
           db\<lparr>articles := (articles db)(k \<mapsto> a\<lparr>Extras := AList.update key val (Extras a)\<rparr>)\<rparr>))"

text \<open>
  Modelled from the spec: insert-node (spec 4.3). Fails with "already exists" if a node
  with that key is present; otherwise reads the head pointer of the root (absent: empty),
  sets the new node's \<open>NextID\<close> to it, writes the node under its own key, and updates
  the root's head pointer to the node's key. The root record is a node whose
  \<open>NextID\<close> is the head pointer, as \<open>GetFollowingList\<close> reads it.
\<close>

definition DoInsertArticle :: "DB \<Rightarrow> string \<Rightarrow> Article \<Rightarrow> error option \<times> DB" where
  "DoInsertArticle db rootID a =
     (case articles db (ID a) of
        Some _ \<Rightarrow> (Some ErrAlreadyExists, db)
      | None \<Rightarrow>
          (let root = (case articles db rootID of
                         None \<Rightarrow> \<lparr>ID = rootID, NextID = [], Cmd = [], Extras = [],
                                   CreateTime = 0, Media = []\<rparr>
                       | Some r \<Rightarrow> r);
               m1 = (articles db)(ID a \<mapsto> a\<lparr>NextID := NextID root\<rparr>);
               m2 = m1(rootID \<mapsto> root\<lparr>NextID := ID a\<rparr>)
           in (None, db\<lparr>articles := m2\<rparr>)))"

text \<open>
  Modelled from the spec: update-user-aggregate (spec 4.3), a read-modify-write of the
  user record with one counter delta; "not existed" if the user is absent. The counters
  are \<open>int32\<close> fields of \<open>User\<close>.
\<close>

datatype UserDelta = IncDecFollowers bool | IncDecFollowings bool

definition wrap32 :: "int \<Rightarrow> int" where
  "wrap32 x = (x + 2147483648) mod 4294967296 - 2147483648"

definition incdec :: "bool \<Rightarrow> int \<Rightarrow> int" where
  "incdec b x = wrap32 (if b then x + 1 else x - 1)"

fun applyDelta :: "UserDelta \<Rightarrow> User \<Rightarrow> User" where
  "applyDelta (IncDecFollowers b) u = u\<lparr>Followers := incdec b (Followers u)\<rparr>"
| "applyDelta (IncDecFollowings b) u = u\<lparr>Followings := incdec b (Followings u)\<rparr>"

definition DoUpdateUser :: "DB \<Rightarrow> string \<Rightarrow> UserDelta \<Rightarrow> error option \<times> DB" where
  "DoUpdateUser db uid d =
     (case users db uid of
        None \<Rightarrow> (Some ErrNotExisted, db)
      | Some u \<Rightarrow> (None, db\<lparr>users := (users db)(uid \<mapsto> applyDelta d u)\<rparr>))"


section \<open>Edges (package dal)\<close>

definition IsFollowing :: "Env \<Rightarrow> DB \<Rightarrow> string \<Rightarrow> string \<Rightarrow> bool" where
  "IsFollowing E db from to =
     (case GetArticle db (makeFollowID E from to) of
        Inl _ \<Rightarrow> False
      | Inr p \<Rightarrow> HasPrefix (extra p to) ''true'')"

definition IsBlocking :: "Env \<Rightarrow> DB \<Rightarrow> string \<Rightarrow> string \<Rightarrow> bool" where
  "IsBlocking E db from to =
     (case GetArticle db (makeBlockID E from to) of
        Inl _ \<Rightarrow> False
      | Inr p \<Rightarrow> extra p ''block'' = ''true'')"

definition IsLiking :: "Env \<Rightarrow> DB \<Rightarrow> string \<Rightarrow> string \<Rightarrow> bool" where
  "IsLiking E db from to =
     (case GetArticle db (makeLikeID E from to) of
        Inl _ \<Rightarrow> False
      | Inr p \<Rightarrow> extra p ''like'' = ''true'')"

text \<open>
  \<open>insertChainOrUpdate\<close>; \<open>now\<close> is the reading of \<open>time.Now()\<close> for \<open>CreateTime\<close>. The
  result is \<open>(updated, E)\<close> and the store after the call.
\<close>

definition insertChainOrUpdate ::
    "DB \<Rightarrow> string \<Rightarrow> string \<Rightarrow> string \<Rightarrow> Cmd \<Rightarrow> bool \<Rightarrow> int \<Rightarrow> (bool \<times> error option) \<times> DB" where
  "insertChainOrUpdate db aid chainid to cmd val now =
     (let state = FormatBool val in
      case DoUpdateArticle db aid cmd state of
        (Inl err, db1) \<Rightarrow>
          if err = ErrNotExisted then
            (let a = \<lparr>ID = aid, NextID = [], Cmd = cmd,
                      Extras = AList.update cmd (FormatBool val) [(''to'', to)],
                      CreateTime = now, Media = []\<rparr>;
                 a' = (if cmd = CmdLike
                       then (case GetArticle db1 to of
                               Inl _ \<Rightarrow> a
                             | Inr toa \<Rightarrow> a\<lparr>Media := Media toa\<rparr>)
                       else a)
             in case DoInsertArticle db1 chainid a' of (e, db2) \<Rightarrow> ((True, e), db2))
          else ((False, Some err), db1)
      | (Inr old, db1) \<Rightarrow> ((old \<noteq> state, None), db1))"

text \<open>
  The value \<open>FollowUser\<close> hands to the update request:
  \<open>strconv.FormatBool(following)+","+strconv.FormatInt(time.Now().Unix(), 10)\<close>.
\<close>

definition followValue :: "bool \<Rightarrow> int \<Rightarrow> string" where
  "followValue following now = FormatBool following @ '','' @ FormatInt (Unix now)"

text \<open>
  The body of \<open>FollowUser\<close> after the block check, up to its \<open>return\<close>: the result is
  the named result \<open>E\<close>, the local \<open>updated\<close> that the deferred function reads, and the
  store. \<open>now\<close> and \<open>now'\<close> are the two readings of \<open>time.Now()\<close>.
\<close>

definition FollowUser_body ::
    "Env \<Rightarrow> DB \<Rightarrow> string \<Rightarrow> string \<Rightarrow> bool \<Rightarrow> int \<Rightarrow> int \<Rightarrow> error option \<times> bool \<times> DB" where
  "FollowUser_body E db from to following now now' =
     (let followID = makeFollowID E from to;
          v = followValue following now in
      case DoUpdateArticle db followID to v of
        (Inl err, db1) \<Rightarrow>
          if err = ErrNotExisted then
            (case DoInsertArticle db1 (NewID E IDFollowing from)
                    \<lparr>ID = followID, NextID = [], Cmd = CmdFollow, Extras = [(to, v)],
                     CreateTime = now', Media = []\<rparr> of
               (Some err', db2) \<Rightarrow> (Some err', True, db2)
             | (None, db2) \<Rightarrow> (None, True, db2))
          else (Some err, False, db1)
      | (Inr old, db1) \<Rightarrow>
          (None, \<not> HasPrefix old (FormatBool following), db1))"

text \<open>
  \<open>FollowUser\<close>: the block check returns before the \<open>defer\<close> statement is reached;
  otherwise the deferred function runs after the body and starts the goroutine when
  \<open>E == nil\<close> and \<open>updated\<close>.
\<close>

definition FollowUser ::
    "Env \<Rightarrow> DB \<Rightarrow> string \<Rightarrow> string \<Rightarrow> bool \<Rightarrow> int \<Rightarrow> int \<Rightarrow> error option \<times> DB" where
  "FollowUser E db from to following now now' =
     (if following \<and> IsBlocking E db to from then (Some ErrFollowToBlocked, db)
      else case FollowUser_body E db from to following now now' of
        (e, updated, db1) \<Rightarrow>
          if e \<noteq> None \<or> \<not> updated then (e, db1)
          else (e, db1\<lparr>dispatched := dispatched db1 @ [FollowEffects from to following]\<rparr>))"

definition fromFollowToNotifyTo ::
    "Env \<Rightarrow> DB \<Rightarrow> string \<Rightarrow> string \<Rightarrow> bool \<Rightarrow> int \<Rightarrow> error option \<times> DB" where
  "fromFollowToNotifyTo E db from to following now =
     (case DoUpdateUser db to (IncDecFollowers following) of
        (Some err, db1) \<Rightarrow> (Some err, db1)
      | (None, db1) \<Rightarrow>
          (case insertChainOrUpdate db1 (makeFollowedID E to from) (NewID E IDFollower to)
                  from CmdFollowed following now of
             ((_, e), db2) \<Rightarrow> (e, db2)))"

definition BlockUser ::
    "Env \<Rightarrow> DB \<Rightarrow> string \<Rightarrow> string \<Rightarrow> bool \<Rightarrow> int \<Rightarrow> int \<Rightarrow> int \<Rightarrow> error option \<times> DB" where
  "BlockUser E db from to blocking now now' now'' =
     (let db1 = (if blocking then snd (FollowUser E db to from False now now') else db)
      in case insertChainOrUpdate db1 (makeBlockID E from to) (NewID E IDBlacklist from)
                to CmdBlock blocking now'' of
           ((_, e), db2) \<Rightarrow> (e, db2))"

definition LikeArticle ::
    "Env \<Rightarrow> DB \<Rightarrow> string \<Rightarrow> string \<Rightarrow> bool \<Rightarrow> int \<Rightarrow> error option \<times> DB" where
  "LikeArticle E db from to liking now =
     (case insertChainOrUpdate db (makeLikeID E from to) (NewID E IDLike from)
             to CmdLike liking now of
        ((_, Some err), db1) \<Rightarrow> (Some err, db1)
      | ((updated, None), db1) \<Rightarrow>
          if updated then (None, db1\<lparr>dispatched := dispatched db1 @ [LikeEffects from to liking]\<rparr>)
          else (None, db1))"

text \<open>
  The goroutine that \<open>FollowUser\<close> starts: the following counter of \<open>from\<close>, then, unless
  \<open>to\<close> is a tag (prefix \<open>#\<close>), \<open>fromFollowToNotifyTo\<close>. Errors are dropped.
\<close>

definition runFollowEffects :: "Env \<Rightarrow> DB \<Rightarrow> string \<Rightarrow> string \<Rightarrow> bool \<Rightarrow> int \<Rightarrow> DB" where
  "runFollowEffects E db from to following now =
     (let db1 = snd (DoUpdateUser db from (IncDecFollowings following))
      in if \<not> HasPrefix to ''#'' then snd (fromFollowToNotifyTo E db1 from to following now)
         else db1)"

section \<open>Walking a chain (package dal)\<close>

record FollowingState =
  StateID :: string
  Time :: int
  Followed :: bool
  RevFollowed :: bool
  Liked :: bool
  Blocked :: bool

text \<open>
  The entries one loaded node adds to \<open>res\<close>: a follow node adds one entry for every
  extras value that splits into exactly two parts at the comma, any other node adds one.
\<close>

definition followEntry :: "Env \<Rightarrow> string \<times> string \<Rightarrow> FollowingState list" where
  "followEntry E kv =
     (let p = Split (snd kv) CHR '','' in
      if length p \<noteq> 2 then []
      else [\<lparr>StateID = fst kv, Time = time_Unix (atoi64 E (p ! 1)), Followed = atob E (p ! 0),
              RevFollowed = False, Liked = False, Blocked = False\<rparr>])"

definition entries :: "Env \<Rightarrow> Article \<Rightarrow> FollowingState list" where
  "entries E a =
     (if Cmd a = CmdFollow then concat (map (followEntry E) (Extras a))
      else [\<lparr>StateID = extra a ''to'', Time = CreateTime a, Followed = False,
              RevFollowed = (extra a ''followed'' = ''true''),
              Liked = (extra a ''like'' = ''true''),
              Blocked = (extra a ''block'' = ''true'')\<rparr>])"

text \<open>
  The loop of \<open>GetFollowingList\<close>. The test \<open>time.Since(start).Seconds() > 0.2\<close> reads a
  monotonic clock, so it is false for the first iterations and true from some iteration
  on: \<open>budget\<close> is the number of iterations that begin within the 0.2 seconds. \<open>load\<close>
  is \<open>GetArticle\<close> on the store. The result is \<open>res\<close> and \<open>cursor\<close> when the loop is left.
\<close>

fun walk :: "Env \<Rightarrow> (string \<Rightarrow> error + Article) \<Rightarrow> nat \<Rightarrow> int \<Rightarrow> FollowingState list \<Rightarrow> string
    \<Rightarrow> FollowingState list \<times> string" where
  "walk E load 0 n res cursor = (res, cursor)"
| "walk E load (Suc budget) n res cursor =
     (if int (length res) < n \<and> HasPrefix cursor ''u/'' then
        (case load cursor of
           Inl err \<Rightarrow> (res, cursor)
         | Inr a \<Rightarrow> walk E load budget n (res @ entries E a) (NextID a))
      else (res, cursor))"

text \<open>
  \<open>sort.Slice(res, func(i, j int) bool { return res[i].Time.After(res[j].Time) })\<close>:
  descending by time. Go's sort is not stable; the model keeps equal times in their order.
\<close>

definition sortByTime :: "FollowingState list \<Rightarrow> FollowingState list" where
  "sortByTime res = sort_key (\<lambda>s. - Time s) res"

definition GetFollowingList ::
    "Env \<Rightarrow> DB \<Rightarrow> nat \<Rightarrow> string \<Rightarrow> string \<Rightarrow> int \<Rightarrow> FollowingState list \<times> string" where
  "GetFollowingList E db budget chain cursor n =
     (if cursor = [] then
        (case GetArticle db chain of
           Inl err \<Rightarrow> ([], [])
         | Inr a \<Rightarrow>
             (case walk E (GetArticle db) budget n [] (NextID a) of
                (res, c) \<Rightarrow> (sortByTime res, c)))
      else
        (case walk E (GetArticle db) budget n [] cursor of
           (res, c) \<Rightarrow> (sortByTime res, c)))"


section \<open>The encoding stated for toggle edges\<close>

text \<open>
  The form \<open>"<lowercase-bool>,<decimal-unix-seconds>"\<close> that the specification gives for
  the extras value of a toggle edge, as a test on strings: two parts at the comma, the
  first \<open>true\<close> or \<open>false\<close>, the second a decimal integer.
\<close>

definition isDigit :: "char \<Rightarrow> bool" where
  "isDigit c = (48 \<le> (of_char c :: nat) \<and> (of_char c :: nat) \<le> 57)"

definition isDecimal :: "string \<Rightarrow> bool" where
  "isDecimal s =
     (case s of
        [] \<Rightarrow> False
      | c # r \<Rightarrow> if c = CHR ''-'' then r \<noteq> [] \<and> list_all isDigit r
                 else list_all isDigit (c # r))"

definition toggleEncoded :: "string \<Rightarrow> bool" where
  "toggleEncoded v =
     (case Split v CHR '','' of
        [b, t] \<Rightarrow> (b = ''true'' \<or> b = ''false'') \<and> isDecimal t
      | _ \<Rightarrow> False)"

section \<open>Sample environment, stores and buckets\<close>

text \<open>
  One environment for evaluating the functions at concrete inputs: keys built from the
  pair under the \<open>u/\<close> prefix, roots under a prefix of their own, a decimal parser for
  \<open>atoi64\<close> and the test for \<open>true\<close> for \<open>atob\<close>.
\<close>

definition sampleAtoi :: "string \<Rightarrow> int" where
  "sampleAtoi s = foldl (\<lambda>acc c. acc * 10 + (int (of_char c) - 48)) 0 s"

fun kindName :: "IDKind \<Rightarrow> string" where
  "kindName IDFollowing = ''following''"
| "kindName IDFollower = ''follower''"
| "kindName IDBlacklist = ''blacklist''"
| "kindName IDLike = ''like''"

definition sampleEnv :: Env where
  "sampleEnv =
     \<lparr>makeFollowID = (\<lambda>from to. ''u/'' @ from @ ''/follow/'' @ to),
      makeFollowedID = (\<lambda>from to. ''u/'' @ from @ ''/followed/'' @ to),
      makeBlockID = (\<lambda>from to. ''u/'' @ from @ ''/block/'' @ to),
      makeLikeID = (\<lambda>from to. ''u/'' @ from @ ''/like/'' @ to),
      NewID = (\<lambda>k x. ''root/'' @ kindName k @ ''/'' @ x),
      atoi64 = sampleAtoi,
      atob = (\<lambda>s. s = ''true'')\<rparr>"

definition emptyDB :: DB where
  "emptyDB = \<lparr>articles = Map.empty, users = Map.empty, dispatched = []\<rparr>"

definition node :: "string \<Rightarrow> string \<Rightarrow> Cmd \<Rightarrow> (string \<times> string) list \<Rightarrow> int \<Rightarrow> Article" where
  "node k nxt c xs t = \<lparr>ID = k, NextID = nxt, Cmd = c, Extras = xs, CreateTime = t, Media = []\<rparr>"

text \<open>A store in which bob has blocked alice.\<close>

definition blockedDB :: DB where
  "blockedDB = emptyDB\<lparr>articles :=
     [''u/bob/block/alice'' \<mapsto>
        node ''u/bob/block/alice'' [] CmdBlock [(''to'', ''alice''), (''block'', ''true'')] 5]\<rparr>"

text \<open>A follow node of alice that holds two extras keys.\<close>

definition bucketDB :: DB where
  "bucketDB = emptyDB\<lparr>articles :=
     [''u/alice/follow/0'' \<mapsto>
        node ''u/alice/follow/0'' [] CmdFollow
          [(''bob'', ''true,100''), (''carol'', ''true,200'')] 100]\<rparr>"

text \<open>
  The chain \<open>A \<rightarrow> B \<rightarrow> C\<close> of three block edges of alice in which the record of \<open>B\<close> has
  been deleted.
\<close>

definition brokenDB :: DB where
  "brokenDB = emptyDB\<lparr>articles :=
     [''u/alice/block/a'' \<mapsto>
        node ''u/alice/block/a'' ''u/alice/block/b'' CmdBlock
          [(''to'', ''a''), (''block'', ''true'')] 30,
      ''u/alice/block/c'' \<mapsto>
        node ''u/alice/block/c'' [] CmdBlock [(''to'', ''c''), (''block'', ''true'')] 10]\<rparr>"

text \<open>The store after alice has followed bob at second 100, starting from the empty store.\<close>

definition followed1 :: DB where
  "followed1 = \<lparr>articles =
      [''u/alice/follow/bob'' \<mapsto> node ''u/alice/follow/bob'' [] CmdFollow [(''bob'', ''true,100'')] 100000000001,
       ''root/following/alice'' \<mapsto> node ''root/following/alice'' ''u/alice/follow/bob'' [] [] 0],
     users = Map.empty, dispatched = [FollowEffects ''alice'' ''bob'' True]\<rparr>"

definition bucket :: "int \<Rightarrow> int \<Rightarrow> int \<Rightarrow> int \<Rightarrow> int \<Rightarrow> TokenBucket" where
  "bucket sp c mx tmo lc =
     \<lparr>speed = sp, capacity = c, maxCapacity = mx, timeout = tmo, lastConsume = lc\<rparr>"


section \<open>Properties of the token bucket\<close>

lemmas tb_eval = Consume_def refill_def elapsed_ms_def sat64_def go_div_def wrap64_def
  sleepTime_def waitMillis_def bucket_def Let_def NewTokenBucket_def









text \<open>
  C8: a rejected \<open>Consume(n)\<close> should leave the bucket as it was before the call. The
  code does not: the rejection branch returns after the refill step has written
  \<open>capacity\<close> and without advancing \<open>lastConsume\<close>, which the immediate branch and the
  wait branch both do. The elapsed time is therefore credited again by the next call. A
  bucket built from \<open>1000x1/10000\<close> at time 0 rejects \<open>Consume(5000)\<close> at 0.5, 1.0 and
  1.5 seconds and is left with a capacity of 500, 1500 and 3000, while 1.5 seconds at 1000
  bytes per second accrue 1500.
\<close>

theorem Consume_rejected_keeps_refill:
  "NewTokenBucket (Some (1000, 1, 10000)) 0 = Some (bucket 1000 0 10000 1000000000 0)
   \<and> Consume waitMillis (bucket 1000 0 10000 1000000000 0) 500000000 5000
       = (False, Rejected, bucket 1000 500 10000 1000000000 0)
   \<and> Consume waitMillis (bucket 1000 500 10000 1000000000 0) 1000000000 5000
       = (False, Rejected, bucket 1000 1500 10000 1000000000 0)
   \<and> Consume waitMillis (bucket 1000 1500 10000 1000000000 0) 1500000000 5000
       = (False, Rejected, bucket 1000 3000 10000 1000000000 0)"
  by (simp add: tb_eval)

text \<open>
  C9: \<open>Consume(0)\<close> should return true in every reachable state. The code returns false
  in a state reached through the same rejection branch. The bucket is built from
  \<open>1000x10/10000\<close> at time 0. A first caller asks for 8000 bytes at time 0 and is made to
  wait 8 seconds, which sets \<open>lastConsume\<close> 8 seconds ahead; while it sleeps (the mutex is
  released) a second caller asks for 8000 bytes at second 1 and is rejected, and the
  rejection keeps the capacity of \<open>-7000\<close> without advancing \<open>lastConsume\<close>;
  \<open>Consume(0)\<close> at second 2 is then debited again for the same interval, finds a capacity
  of \<open>-13000\<close> and returns false.
\<close>

theorem Consume_zero_after_rejection:
  "NewTokenBucket (Some (1000, 10, 10000)) 0 = Some (bucket 1000 0 10000 10000000000 0)
   \<and> Consume waitMillis (bucket 1000 0 10000 10000000000 0) 0 8000
       = (True, Waited 8000000000, bucket 1000 0 10000 10000000000 8000000000)
   \<and> Consume waitMillis (bucket 1000 0 10000 10000000000 8000000000) 1000000000 8000
       = (False, Rejected, bucket 1000 (- 7000) 10000 10000000000 8000000000)
   \<and> Consume waitMillis (bucket 1000 (- 7000) 10000 10000000000 8000000000) 2000000000 0
       = (False, Rejected, bucket 1000 (- 13000) 10000 10000000000 8000000000)"
  by (simp add: tb_eval)

text \<open>
  C10: a bucket built by \<open>NewTokenBucket\<close> with a positive speed holds a capacity of 0,
  and a first \<open>Consume(n)\<close> with \<open>n > 0\<close> at the time of construction does not take the
  immediate branch: it is rejected when the computed wait exceeds the timeout and waits
  for it otherwise.
\<close>

theorem first_Consume_not_instant:
  assumes "NewTokenBucket (Some (sp, wait, mx)) t0 = Some tb" "0 < sp" "0 < n"
  shows "capacity tb = 0 \<and>
     Consume f tb t0 n =
       (let tb1 = tb\<lparr>capacity := min 0 mx\<rparr>; st = sleepTime f tb1 n
        in if timeout tb < st then (False, Rejected, tb1)
           else (True, Waited st, tb1\<lparr>capacity := 0, lastConsume := t0 + st\<rparr>))"
proof -
  have tb: "tb = \<lparr>speed = sp, capacity = 0, maxCapacity = mx,
                timeout = wrap64 (wait * 1000000000), lastConsume = t0\<rparr>"
    using assms(1) by (simp add: NewTokenBucket_def)
  have r: "refill tb t0 = tb\<lparr>capacity := min 0 mx\<rparr>"
    by (simp add: tb refill_def elapsed_ms_def sat64_def go_div_def wrap64_def min_def)
  show ?thesis using assms(2,3) r
    by (simp add: Consume_def Let_def tb min_def)
qed

theorem first_Consume_not_instant_witness:
  "Consume waitMillis (bucket 1000 0 10000 10000000000 0) 0 8000
       = (True, Waited 8000000000, bucket 1000 0 10000 10000000000 8000000000)
   \<and> Consume waitMillis (bucket 1000 0 10000 10000000000 0) 0 80000
       = (False, Rejected, bucket 1000 0 10000 10000000000 0)"
proof -
  have n: "NewTokenBucket (Some (1000, 10, 10000)) 0 = Some (bucket 1000 0 10000 10000000000 0)"
    by (simp add: NewTokenBucket_def bucket_def wrap64_def)
  have p: "(0::int) < 1000" "(0::int) < 8000" "(0::int) < 80000" by simp_all
  have s1: "sleepTime waitMillis (bucket 1000 0 10000 10000000000 0) 8000 = 8000000000"
    by (simp add: sleepTime_def waitMillis_def go_div_def wrap64_def bucket_def)
  have s2: "sleepTime waitMillis (bucket 1000 0 10000 10000000000 0) 80000 = 80000000000"
    by (simp add: sleepTime_def waitMillis_def go_div_def wrap64_def bucket_def)
  have m: "(bucket 1000 0 10000 10000000000 0)\<lparr>capacity := min 0 10000\<rparr>
      = bucket 1000 0 10000 10000000000 0"
    by (simp add: bucket_def)
  have t: "timeout (bucket 1000 0 10000 10000000000 0) = 10000000000"
    by (simp add: bucket_def)
  have a: "Consume waitMillis (bucket 1000 0 10000 10000000000 0) 0 8000
       = (True, Waited 8000000000, bucket 1000 0 10000 10000000000 8000000000)"
    unfolding conjunct2 [OF first_Consume_not_instant [OF n p(1) p(2), of waitMillis]] m Let_def s1 t
    by (simp add: bucket_def)
  have b: "Consume waitMillis (bucket 1000 0 10000 10000000000 0) 0 80000
       = (False, Rejected, bucket 1000 0 10000 10000000000 0)"
    unfolding conjunct2 [OF first_Consume_not_instant [OF n p(1) p(3), of waitMillis]] m Let_def s2 t
    by simp
  show ?thesis using a b by simp
qed

section \<open>Properties of the edges and of the chain walk\<close>

subsection \<open>Auxiliary facts\<close>

lemma extra_update:
  "extra (a\<lparr>Extras := AList.update k v (Extras a)\<rparr>) k' = (if k' = k then v else extra a k')"
  by (simp add: extra_def update_conv')

lemma extra_NextID [simp]: "extra (r\<lparr>NextID := n\<rparr>) k = extra r k"
  by (simp add: extra_def)

lemma extra_fresh [simp]:
  "extra \<lparr>ID = i, NextID = n, Cmd = c, Extras = [], CreateTime = t, Media = m\<rparr> k = []"
  by (simp add: extra_def)


lemma followValue_prefix: "HasPrefix (followValue following now) (FormatBool following)"
  by (simp add: followValue_def HasPrefix_def)

lemma sampleEnv_sel:
  "makeFollowID sampleEnv from to = ''u/'' @ from @ ''/follow/'' @ to"
  "makeBlockID sampleEnv from to = ''u/'' @ from @ ''/block/'' @ to"
  "NewID sampleEnv k x = ''root/'' @ kindName k @ ''/'' @ x"
  by (simp_all add: sampleEnv_def)

lemma body_update:
  assumes "articles db (makeFollowID E from to) = Some a"
  shows "FollowUser_body E db from to following now now' =
     (None, \<not> HasPrefix (extra a to) (FormatBool following),
      db\<lparr>articles := (articles db)(makeFollowID E from to \<mapsto>
            a\<lparr>Extras := AList.update to (followValue following now) (Extras a)\<rparr>)\<rparr>)"
  using assms by (simp add: FollowUser_body_def DoUpdateArticle_def Let_def)

lemma body_insert:
  assumes "articles db (makeFollowID E from to) = None"
  shows "FollowUser_body E db from to following now now' =
     (None, True,
      snd (DoInsertArticle db (NewID E IDFollowing from)
             \<lparr>ID = makeFollowID E from to, NextID = [], Cmd = CmdFollow,
              Extras = [(to, followValue following now)], CreateTime = now', Media = []\<rparr>))"
  using assms
  by (simp add: FollowUser_body_def DoUpdateArticle_def DoInsertArticle_def Let_def)

lemma insert_stored:
  assumes "articles db (ID x) = None" "rootID \<noteq> ID x"
  shows "\<exists>y. articles (snd (DoInsertArticle db rootID x)) (ID x) = Some y \<and> Extras y = Extras x
           \<and> Cmd y = Cmd x \<and> ID y = ID x"
  using assms by (simp add: DoInsertArticle_def Let_def)

lemma insert_frame:
  "users (snd (DoInsertArticle db rootID x)) = users db"
  "dispatched (snd (DoInsertArticle db rootID x)) = dispatched db"
  by (simp_all add: DoInsertArticle_def Let_def split: option.splits)


lemma body_frame:
  "users (snd (snd (FollowUser_body E db from to following now now'))) = users db"
  "dispatched (snd (snd (FollowUser_body E db from to following now now'))) = dispatched db"
  by (cases "articles db (makeFollowID E from to)"; simp add: body_update body_insert insert_frame)+


lemma FollowUser_articles:
  "articles (snd (FollowUser E db from to following now now')) = 
     (if following \<and> IsBlocking E db to from then articles db
      else articles (snd (snd (FollowUser_body E db from to following now now'))))"
  by (simp add: FollowUser_def split: prod.splits)



lemma second_follow:
  assumes "articles db (makeFollowID E from to) = Some x"
    "HasPrefix (extra x to) (FormatBool following)"
    "\<not> (following \<and> IsBlocking E db to from)"
  shows "FollowUser_body E db from to following now now' =
       (None, False, db\<lparr>articles := (articles db)(makeFollowID E from to \<mapsto>
            x\<lparr>Extras := AList.update to (followValue following now) (Extras x)\<rparr>)\<rparr>)"
    "FollowUser E db from to following now now' =
       (None, db\<lparr>articles := (articles db)(makeFollowID E from to \<mapsto>
            x\<lparr>Extras := AList.update to (followValue following now) (Extras x)\<rparr>)\<rparr>)"
  using assms by (auto simp: FollowUser_def body_update)

lemma followValue_100: "followValue True 100000000000 = ''true,100''"
  by (simp add: followValue_def FormatBool_def Unix_def FormatInt_def natstr.simps digit_def)

lemma followValue_200: "followValue True 200000000000 = ''true,200''"
  by (simp add: followValue_def FormatBool_def Unix_def FormatInt_def natstr.simps digit_def)

lemma followValue_F7: "followValue False 7000000000 = ''false,7''"
  by (simp add: followValue_def FormatBool_def Unix_def FormatInt_def natstr.simps digit_def)

lemmas dal_eval = FollowUser_def FollowUser_body_def DoUpdateArticle_def DoInsertArticle_def
  IsBlocking_def IsFollowing_def GetArticle_def sampleEnv_sel emptyDB_def extra_def Let_def
  HasPrefix_def FormatBool_def CmdFollow_def

lemma first_call:
  "FollowUser sampleEnv emptyDB ''alice'' ''bob'' True 100000000000 100000000001 = (None, followed1)"
  by (simp add: dal_eval followValue_100 followed1_def node_def)

lemma digit_isDigit: "d < 10 \<Longrightarrow> isDigit (digit d)"
proof -
  have "list_all isDigit ''0123456789''" by (simp add: isDigit_def)
  then have "\<forall>i<length ''0123456789''. isDigit (''0123456789'' ! i)"
    by (simp only: list_all_length)
  moreover assume "d < 10"
  ultimately show ?thesis by (simp add: digit_def)
qed

lemma natstr_digits: "list_all isDigit (natstr n)"
proof (induction n rule: natstr.induct)
  case (1 n)
  show ?case
  proof (cases "n < 10")
    case True
    then show ?thesis by (subst natstr.simps) (simp add: digit_isDigit)
  next
    case False
    with 1 have "list_all isDigit (natstr (n div 10))" by simp
    moreover have "isDigit (digit (n mod 10))" by (simp add: digit_isDigit)
    ultimately show ?thesis using False by (subst natstr.simps) simp
  qed
qed

lemma natstr_nonempty: "natstr n \<noteq> []"
  by (subst natstr.simps) simp

lemma FormatInt_decimal: "isDecimal (FormatInt i)"
proof (cases "i < 0")
  case True
  then show ?thesis by (simp add: FormatInt_def isDecimal_def natstr_digits natstr_nonempty)
next
  case False
  obtain c r where cr: "natstr (nat i) = c # r"
    using natstr_nonempty [of "nat i"] by (cases "natstr (nat i)") auto
  have d: "list_all isDigit (c # r)" using natstr_digits [of "nat i"] cr by simp
  then have "isDigit c" by simp
  then have "c \<noteq> CHR ''-''" by (auto simp: isDigit_def)
  with False cr d show ?thesis by (simp add: FormatInt_def isDecimal_def)
qed

lemma digits_no_comma: "list_all isDigit s \<Longrightarrow> CHR '','' \<notin> set s"
  by (induction s) (auto simp: isDigit_def)

lemma FormatInt_no_comma: "CHR '','' \<notin> set (FormatInt i)"
  using digits_no_comma [OF natstr_digits] by (simp add: FormatInt_def)

lemma Split_no_sep: "c \<notin> set s \<Longrightarrow> Split s c = [s]"
  by (induction s) auto

lemma Split_at: "c \<notin> set s \<Longrightarrow> Split (s @ c # t) c = s # Split t c"
  by (induction s) auto

lemma followValue_encoded: "toggleEncoded (followValue following now)"
proof -
  have "CHR '','' \<notin> set (FormatBool following)" by (simp add: FormatBool_def)
  then have "Split (followValue following now) CHR '','' =
      [FormatBool following, FormatInt (Unix now)]"
    by (simp add: followValue_def Split_at Split_no_sep FormatInt_no_comma)
  then show ?thesis
    by (simp add: toggleEncoded_def FormatInt_decimal) (simp add: FormatBool_def)
qed

lemma FormatBool_not_encoded: "\<not> toggleEncoded (FormatBool v)"
  by (simp add: toggleEncoded_def FormatBool_def)

lemma FollowUser_stored:
  assumes "fst (FollowUser E db from to following now now') = None"
    "NewID E IDFollowing from \<noteq> makeFollowID E from to"
  shows "map_option (\<lambda>y. extra y to)
          (articles (snd (FollowUser E db from to following now now')) (makeFollowID E from to))
         = Some (followValue following now)"
proof -
  from assms(1) have nb: "\<not> (following \<and> IsBlocking E db to from)"
    by (auto simp: FollowUser_def)
  show ?thesis
  proof (cases "articles db (makeFollowID E from to)")
    case None
    from insert_stored [of db "\<lparr>ID = makeFollowID E from to, NextID = [], Cmd = CmdFollow,
            Extras = [(to, followValue following now)], CreateTime = now', Media = []\<rparr>"
            "NewID E IDFollowing from"] None assms(2)
    obtain y where y: "articles (snd (DoInsertArticle db (NewID E IDFollowing from)
           \<lparr>ID = makeFollowID E from to, NextID = [], Cmd = CmdFollow,
            Extras = [(to, followValue following now)], CreateTime = now', Media = []\<rparr>))
           (makeFollowID E from to) = Some y" "Extras y = [(to, followValue following now)]"
      by auto
    from y(2) have "extra y to = followValue following now" by (simp add: extra_def)
    with None nb y(1) show ?thesis
      by (simp add: FollowUser_articles body_insert)
  next
    case (Some x)
    with nb show ?thesis
      by (auto simp: FollowUser_articles body_update extra_update)
  qed
qed

lemma insertChainOrUpdate_absent:
  assumes "articles db aid = None"
  shows "insertChainOrUpdate db aid chainid to cmd val now =
     ((True, fst (DoInsertArticle db chainid
         \<lparr>ID = aid, NextID = [], Cmd = cmd,
          Extras = AList.update cmd (FormatBool val) [(''to'', to)], CreateTime = now,
          Media = (if cmd = CmdLike
                   then (case GetArticle db to of Inl _ \<Rightarrow> [] | Inr toa \<Rightarrow> Media toa)
                   else [])\<rparr>)),
      snd (DoInsertArticle db chainid
         \<lparr>ID = aid, NextID = [], Cmd = cmd,
          Extras = AList.update cmd (FormatBool val) [(''to'', to)], CreateTime = now,
          Media = (if cmd = CmdLike
                   then (case GetArticle db to of Inl _ \<Rightarrow> [] | Inr toa \<Rightarrow> Media toa)
                   else [])\<rparr>))"
  using assms
  by (auto simp add: insertChainOrUpdate_def DoUpdateArticle_def Let_def
      simp del: AList.update.simps split: prod.splits sum.splits)

lemma insertChainOrUpdate_stored:
  assumes "snd (fst (insertChainOrUpdate db aid chainid to cmd val now)) = None"
    "chainid \<noteq> aid"
  shows "map_option (\<lambda>y. extra y cmd)
          (articles (snd (insertChainOrUpdate db aid chainid to cmd val now)) aid)
         = Some (FormatBool val)"
proof (cases "articles db aid")
  case None
  let ?a = "\<lparr>ID = aid, NextID = [], Cmd = cmd,
          Extras = AList.update cmd (FormatBool val) [(''to'', to)], CreateTime = now,
          Media = (if cmd = CmdLike
                   then (case GetArticle db to of Inl _ \<Rightarrow> [] | Inr toa \<Rightarrow> Media toa)
                   else [])\<rparr>"
  have "\<exists>y. articles (snd (DoInsertArticle db chainid ?a)) (ID ?a) = Some y
      \<and> Extras y = Extras ?a \<and> Cmd y = Cmd ?a \<and> ID y = ID ?a"
    by (rule insert_stored) (simp_all add: None assms(2))
  then obtain y0 where y0: "articles (snd (DoInsertArticle db chainid ?a)) (ID ?a) = Some y0"
    "Extras y0 = Extras ?a"
    by blast
  have sel: "ID ?a = aid" "Extras ?a = AList.update cmd (FormatBool val) [(''to'', to)]"
    by simp_all
  note y = y0 [unfolded sel]
  from y(2) have "extra y0 cmd = FormatBool val"
    by (simp add: extra_def update_conv' del: AList.update.simps)
  with y(1) show ?thesis
    by (simp add: insertChainOrUpdate_absent [OF None] del: AList.update.simps)
next
  case (Some x)
  then show ?thesis
    by (simp add: insertChainOrUpdate_def DoUpdateArticle_def Let_def extra_update)
qed

lemma walk_length:
  assumes "\<And>c a. load c = Inr a \<Longrightarrow> length (entries E a) \<le> k"
  shows "length (fst (walk E load budget n res cursor)) \<le> max (length res) (nat (n - 1) + k)"
proof (induction budget arbitrary: res cursor)
  case 0
  show ?case by simp
next
  case (Suc budget)
  show ?case
  proof (cases "int (length res) < n \<and> HasPrefix cursor ''u/''")
    case False
    then show ?thesis by auto
  next
    case True
    show ?thesis
    proof (cases "load cursor")
      case (Inl e)
      with True show ?thesis by simp
    next
      case (Inr a)
      have "length res \<le> nat (n - 1)" using True by linarith
      then have "length (res @ entries E a) \<le> nat (n - 1) + k"
        using assms [OF Inr] by simp
      with Suc.IH [of "res @ entries E a" "NextID a"]
      have "length (fst (walk E load budget n (res @ entries E a) (NextID a))) \<le> nat (n - 1) + k"
        by simp
      with True Inr show ?thesis by simp
    qed
  qed
qed

lemma walk_nonpositive: "n \<le> 0 \<Longrightarrow> walk E load budget n res cursor = (res, cursor)"
  by (cases budget) simp_all

lemma walk_load_fails: "load c = Inl err \<Longrightarrow> walk E load budget n res c = (res, c)"
  by (cases budget) simp_all

lemma length_sortByTime [simp]: "length (sortByTime res) = length res"
  by (simp add: sortByTime_def)

lemma GetFollowingList_fst:
  "fst (GetFollowingList E db budget chain cursor n) =
     (if cursor = [] then
        (case GetArticle db chain of
           Inl _ \<Rightarrow> []
         | Inr a \<Rightarrow> sortByTime (fst (walk E (GetArticle db) budget n [] (NextID a))))
      else sortByTime (fst (walk E (GetArticle db) budget n [] cursor)))"
  by (simp add: GetFollowingList_def split: sum.splits prod.splits)

lemma brokenDB_entries:
  "\<forall>c a. GetArticle brokenDB c = Inr a \<longrightarrow> length (entries sampleEnv a) \<le> 1"
  by (auto simp: GetArticle_def brokenDB_def emptyDB_def node_def entries_def CmdFollow_def
      CmdBlock_def split: if_splits option.splits)

subsection \<open>FollowUser\<close>

text \<open>
  C1: if the follow target has blocked the actor, \<open>FollowUser(from, to, true)\<close> returns
  the error \<open>follow/to-blocked\<close> and leaves the store as it was: no node is written or
  updated, no user record is touched and no goroutine is started.
\<close>

theorem FollowUser_blocked:
  "IsBlocking E db to from \<Longrightarrow>
     FollowUser E db from to True now now' = (Some ErrFollowToBlocked, db)"
  by (simp add: FollowUser_def)

text \<open>
  With bob's block of alice stored, alice's follow of bob is refused and the store is
  unchanged.
\<close>

theorem FollowUser_blocked_witness:
  "IsBlocking sampleEnv blockedDB ''bob'' ''alice'' \<and>
   FollowUser sampleEnv blockedDB ''alice'' ''bob'' True 100000000000 100000000001
     = (Some ErrFollowToBlocked, blockedDB)"
proof -
  have b: "IsBlocking sampleEnv blockedDB ''bob'' ''alice''"
    by (simp add: IsBlocking_def GetArticle_def sampleEnv_sel blockedDB_def emptyDB_def
        node_def extra_def)
  from FollowUser_blocked [OF b] b show ?thesis by simp
qed



text \<open>
  C3, as stated, fails: the update request always carries the value built from the
  current clock, and the executor stores it. After a first follow at second 100 the
  stored value is \<open>true,100\<close>; after a second follow at second 200 it is \<open>true,200\<close>.
\<close>

theorem FollowUser_reapply_counterexample:
  "FollowUser sampleEnv emptyDB ''alice'' ''bob'' True 100000000000 100000000001 = (None, followed1)
   \<and> map_option (\<lambda>x. extra x ''bob'') (articles followed1 ''u/alice/follow/bob'') = Some ''true,100''
   \<and> map_option (\<lambda>x. extra x ''bob'')
     (articles (snd (FollowUser sampleEnv followed1 ''alice'' ''bob'' True 200000000000 200000000001))
        ''u/alice/follow/bob'') = Some ''true,200''"
  by (simp add: dal_eval followValue_100 followValue_200 followed1_def node_def)

text \<open>
  C3, amended: when \<open>FollowUser\<close> re-applies the boolean already stored for the edge,
  it returns \<open>nil\<close> with \<open>updated\<close> false and starts no goroutine; the node is the
  stored node with the extras value of the edge overwritten by the value of this call,
  which has the same boolean and the timestamp of this call.
\<close>

theorem FollowUser_reapply:
  assumes "articles db (makeFollowID E from to) = Some x"
    "HasPrefix (extra x to) (FormatBool following)"
    "\<not> (following \<and> IsBlocking E db to from)"
  shows "FollowUser E db from to following now now' =
       (None, db\<lparr>articles := (articles db)(makeFollowID E from to \<mapsto>
            x\<lparr>Extras := AList.update to (followValue following now) (Extras x)\<rparr>)\<rparr>)
     \<and> \<not> fst (snd (FollowUser_body E db from to following now now'))
     \<and> dispatched (snd (FollowUser E db from to following now now')) = dispatched db
     \<and> map_option (\<lambda>y. extra y to)
          (articles (snd (FollowUser E db from to following now now')) (makeFollowID E from to))
         = Some (followValue following now)
     \<and> HasPrefix (followValue following now) (FormatBool following)"
  using second_follow [OF assms, of now now'] followValue_prefix [of following now]
  by (simp add: extra_update)

theorem FollowUser_reapply_witness:
  "FollowUser sampleEnv followed1 ''alice'' ''bob'' True 200000000000 200000000001 =
     (None, followed1\<lparr>articles := (articles followed1)(''u/alice/follow/bob'' \<mapsto>
        node ''u/alice/follow/bob'' [] CmdFollow [(''bob'', ''true,200'')] 100000000001)\<rparr>)"
proof -
  have a: "articles followed1 (makeFollowID sampleEnv ''alice'' ''bob'')
      = Some (node ''u/alice/follow/bob'' [] CmdFollow [(''bob'', ''true,100'')] 100000000001)"
    by (simp add: followed1_def sampleEnv_sel)
  have b: "HasPrefix (extra (node ''u/alice/follow/bob'' [] CmdFollow [(''bob'', ''true,100'')] 100000000001) ''bob'')
      (FormatBool True)"
    by (simp add: extra_def node_def HasPrefix_def FormatBool_def)
  have c: "\<not> (True \<and> IsBlocking sampleEnv followed1 ''bob'' ''alice'')"
    by (simp add: IsBlocking_def GetArticle_def sampleEnv_sel followed1_def)
  from FollowUser_reapply [OF a b c, of 200000000000 200000000001]
  show ?thesis by (simp add: sampleEnv_sel followValue_200 node_def)
qed

subsection \<open>The extras value of toggle edges\<close>

text \<open>
  C6, as stated, fails for the edges written by \<open>insertChainOrUpdate\<close> (followed, block
  and like): the value is the boolean alone. After alice blocks bob the block node holds
  \<open>true\<close> under the key \<open>block\<close>, which is not of the form
  \<open><bool>,<seconds>\<close>.
\<close>

theorem toggle_values_counterexample:
  "map_option (\<lambda>y. extra y ''block'')
     (articles (snd (BlockUser sampleEnv emptyDB ''alice'' ''bob'' True 7000000000 7000000001 7000000002))
        ''u/alice/block/bob'') = Some ''true''
   \<and> \<not> toggleEncoded ''true''"
  by (simp add: BlockUser_def insertChainOrUpdate_def dal_eval followValue_F7 toggleEncoded_def
      CmdBlock_def CmdLike_def)

text \<open>
  C6, amended: the value \<open>FollowUser\<close> writes for a follow edge has the form
  \<open><lowercase-bool>,<decimal-unix-seconds>\<close>, and after a successful call it is the
  value stored under the key \<open>to\<close> of the follow node; a successful
  \<open>insertChainOrUpdate\<close> (followed, block and like edges) stores under the key
  \<open>cmd\<close> the lowercase boolean alone, which is not of that form.
\<close>

theorem toggle_values:
  "toggleEncoded (followValue following now)
   \<and> (fst (FollowUser E db from to following now now') = None
        \<and> NewID E IDFollowing from \<noteq> makeFollowID E from to
      \<longrightarrow> map_option (\<lambda>y. extra y to)
            (articles (snd (FollowUser E db from to following now now')) (makeFollowID E from to))
          = Some (followValue following now))
   \<and> (snd (fst (insertChainOrUpdate db aid chainid to' cmd val t)) = None \<and> chainid \<noteq> aid
      \<longrightarrow> map_option (\<lambda>y. extra y cmd)
            (articles (snd (insertChainOrUpdate db aid chainid to' cmd val t)) aid)
          = Some (FormatBool val))
   \<and> \<not> toggleEncoded (FormatBool val)"
  using followValue_encoded FollowUser_stored insertChainOrUpdate_stored FormatBool_not_encoded
  by blast

theorem toggle_values_witness:
  "map_option (\<lambda>y. extra y ''bob'') (articles followed1 ''u/alice/follow/bob'') = Some ''true,100''
   \<and> toggleEncoded ''true,100''
   \<and> map_option (\<lambda>y. extra y CmdBlock)
       (articles (snd (insertChainOrUpdate emptyDB ''u/alice/block/bob'' ''root/blacklist/alice''
           ''bob'' CmdBlock True 5)) ''u/alice/block/bob'') = Some ''true''"
proof -
  have a: "fst (FollowUser sampleEnv emptyDB ''alice'' ''bob'' True 100000000000 100000000001) = None"
    by (simp add: first_call)
  have b: "NewID sampleEnv IDFollowing ''alice'' \<noteq> makeFollowID sampleEnv ''alice'' ''bob''"
    by (simp add: sampleEnv_sel)
  have c: "snd (fst (insertChainOrUpdate emptyDB ''u/alice/block/bob'' ''root/blacklist/alice''
           ''bob'' CmdBlock True 5)) = None"
    by (simp add: insertChainOrUpdate_def dal_eval CmdBlock_def CmdLike_def)
  have d: "''root/blacklist/alice'' \<noteq> ''u/alice/block/bob''" by simp
  from toggle_values [where following = True and now = 100000000000 and E = sampleEnv
      and db = emptyDB and ?from = "''alice''" and to = "''bob''" and now' = 100000000001
      and aid = "''u/alice/block/bob''" and chainid = "''root/blacklist/alice''"
      and to' = "''bob''" and cmd = CmdBlock and val = True and t = 5]
    a b c d
  show ?thesis by (simp add: first_call followValue_100 sampleEnv_sel FormatBool_def)
qed

subsection \<open>GetFollowingList\<close>

text \<open>
  C4, as stated, fails: the count is tested before a node is loaded, not while a follow
  node is expanded. With \<open>n = 1\<close> a follow node that holds two extras keys yields two
  entries.
\<close>

theorem GetFollowingList_count_counterexample:
  "length (fst (GetFollowingList sampleEnv bucketDB 10 ''root/following/alice'' ''u/alice/follow/0'' 1)) = 2"
  by (simp add: GetFollowingList_def GetArticle_def bucketDB_def emptyDB_def node_def
      HasPrefix_def entries_def followEntry_def CmdFollow_def numeral_nat Let_def)

text \<open>
  C4, amended: if every node of the store yields at most \<open>k\<close> entries, the result of
  \<open>GetFollowingList\<close> is empty for \<open>n \<le> 0\<close> and holds at most \<open>n - 1 + k\<close> entries
  otherwise; so at most \<open>n\<close> entries when every node yields at most one.
\<close>

theorem GetFollowingList_count:
  assumes "\<forall>c a. GetArticle db c = Inr a \<longrightarrow> length (entries E a) \<le> k"
  shows "int (length (fst (GetFollowingList E db budget chain cursor n)))
           \<le> (if n \<le> 0 then 0 else n - 1 + int k)"
proof -
  from assms have b: "\<And>c a. GetArticle db c = Inr a \<Longrightarrow> length (entries E a) \<le> k" by blast
  have w: "int (length (fst (walk E (GetArticle db) budget n [] c)))
           \<le> (if n \<le> 0 then 0 else n - 1 + int k)" for c
  proof (cases "n \<le> 0")
    case True
    then show ?thesis by (simp add: walk_nonpositive)
  next
    case False
    from walk_length [of "GetArticle db" E k budget n "[]" c, OF b]
    have "length (fst (walk E (GetArticle db) budget n [] c)) \<le> nat (n - 1) + k" by simp
    with False show ?thesis by simp
  qed
  have "\<exists>c. fst (GetFollowingList E db budget chain cursor n) = [] \<or>
      fst (GetFollowingList E db budget chain cursor n)
        = sortByTime (fst (walk E (GetArticle db) budget n [] c))"
    unfolding GetFollowingList_fst by (cases "GetArticle db chain") auto
  then obtain c where "fst (GetFollowingList E db budget chain cursor n) = [] \<or>
      fst (GetFollowingList E db budget chain cursor n)
        = sortByTime (fst (walk E (GetArticle db) budget n [] c))"
    by blast
  then show ?thesis using w [of c] by (auto simp: sortByTime_def split: if_splits)
qed

theorem GetFollowingList_count_witness:
  "int (length (fst (GetFollowingList sampleEnv brokenDB 10 ''root/blacklist/alice''
      ''u/alice/block/a'' 2))) \<le> 2"
  using GetFollowingList_count [OF brokenDB_entries, of 10 "''root/blacklist/alice''"
      "''u/alice/block/a''" 2]
  by simp

text \<open>
  C5: when the walk starts at a node \<open>A\<close> that loads (with \<open>n > 0\<close>, within the time
  budget) and the node that \<open>A\<close> points to cannot be loaded, \<open>GetFollowingList\<close>
  returns the entries of \<open>A\<close> and the failing cursor; and at any point of a walk, a
  cursor that cannot be loaded ends the walk with the entries collected so far and that
  cursor.
\<close>

theorem GetFollowingList_broken_chain:
  assumes "0 < n" "0 < budget" "HasPrefix A ''u/''"
    "GetArticle db A = Inr a" "GetArticle db (NextID a) = Inl err"
  shows "GetFollowingList E db budget chain A n = (sortByTime (entries E a), NextID a)
     \<and> walk E (GetArticle db) budget' n' res (NextID a) = (res, NextID a)"
proof -
  from assms(3) have ne: "A \<noteq> []" by (auto simp: HasPrefix_def)
  from assms(2) obtain b where b: "budget = Suc b" by (cases budget) auto
  have w: "walk E (GetArticle db) budget n [] A = (entries E a, NextID a)"
    using assms(1,3,4)
      walk_load_fails [where load = "GetArticle db" and c = "NextID a", OF assms(5), of E b n "entries E a"]
    by (simp add: b)
  show ?thesis
    using ne w walk_load_fails [where load = "GetArticle db" and c = "NextID a", OF assms(5)]
    by (simp add: GetFollowingList_def)
qed

theorem GetFollowingList_broken_chain_witness:
  "GetFollowingList sampleEnv brokenDB 5 ''root/blacklist/alice'' ''u/alice/block/a'' 10
     = ([\<lparr>StateID = ''a'', Time = 30, Followed = False, RevFollowed = False, Liked = False,
          Blocked = True\<rparr>], ''u/alice/block/b'')"
proof -
  have a: "GetArticle brokenDB ''u/alice/block/a''
      = Inr (node ''u/alice/block/a'' ''u/alice/block/b'' CmdBlock
          [(''to'', ''a''), (''block'', ''true'')] 30)"
    by (simp add: GetArticle_def brokenDB_def emptyDB_def)
  have b: "GetArticle brokenDB (NextID (node ''u/alice/block/a'' ''u/alice/block/b'' CmdBlock
          [(''to'', ''a''), (''block'', ''true'')] 30)) = Inl ErrNotExisted"
    by (simp add: GetArticle_def brokenDB_def emptyDB_def node_def)
  have p: "HasPrefix ''u/alice/block/a'' ''u/''" by (simp add: HasPrefix_def)
  have n: "(0::int) < 10" "(0::nat) < 5" by simp_all
  from GetFollowingList_broken_chain [OF n p a b, of sampleEnv "''root/blacklist/alice''"]
  show ?thesis
    by (simp add: entries_def node_def CmdBlock_def CmdFollow_def extra_def sortByTime_def)
qed

end
